theory Spec2Isabelle
  imports Complex_Main "HOL-Library.Sublist" "HOL-Library.AList"
begin

section \<open>License compliance checker: the model of checker.ts\<close>

text \<open>
  The development follows \<^verbatim>\<open>src/checker.ts\<close> function by function. Objects used as
  dictionaries are association lists in property order. Every
  \<^verbatim>\<open>try { ... } catch { ... }\<close> of the source is a case distinction on a fallible read:
  the only statements that can raise are the reads of the filesystem, the parse and a
  property access on \<^verbatim>\<open>null\<close>.
\<close>

subsection \<open>Strings\<close>

text \<open>
  A JavaScript string is modelled as a \<^typ>\<open>string\<close>: the list of its characters, a
  character outside ASCII being the bytes of its UTF-8 form. The program compares strings,
  concatenates them, searches substrings and maps case.

  \<open>toUpperChar\<close> moves the letters a to z (codes 97 to 122) to A to Z and keeps every
  other character. It is the canonicalisation that a regular expression with the
  \<^verbatim>\<open>i\<close> flag (and no \<^verbatim>\<open>u\<close> flag) applies to the pattern and to the input, as far
  as ASCII patterns go: there JavaScript never identifies a character outside ASCII with
  an ASCII one. \<open>toUpperCase\<close> is \<^verbatim>\<open>String.prototype.toUpperCase\<close> on ASCII text; on
  other text JavaScript maps case by the Unicode tables, which \<open>toUpperCase\<close> does not
  follow (see \<open>isLicenseAllowedWith\<close> below).
\<close>

definition toUpperChar :: "char \<Rightarrow> char" where
  "toUpperChar c =
     (let n = (of_char c :: nat) in if 97 \<le> n \<and> n \<le> 122 then char_of (n - 32) else c)"

definition toUpperCase :: "string \<Rightarrow> string" where
  "toUpperCase s = map toUpperChar s"

text \<open>
  \<^verbatim>\<open>haystack.includes(needle)\<close>: the needle occurs at some position of the haystack.
\<close>

fun str_includes :: "string \<Rightarrow> string \<Rightarrow> bool" where
  "str_includes [] needle = (needle = [])"
| "str_includes (c # cs) needle = (prefix needle (c # cs) \<or> str_includes cs needle)"

text \<open>
  \<^verbatim>\<open>/pattern/i.test(s)\<close> for a pattern made of literal characters only, as all six
  prohibited patterns are: an unanchored, case-insensitive search.
\<close>

definition test :: "string \<Rightarrow> string \<Rightarrow> bool" where
  "test pattern s = str_includes (map toUpperChar s) (map toUpperChar pattern)"

subsection \<open>Constants\<close>

definition DEFAULT_ALLOWED_LICENSES :: "string list" where
  "DEFAULT_ALLOWED_LICENSES =
     [''MIT'', ''Apache-2.0'', ''BSD-2-Clause'', ''BSD-3-Clause'', ''ISC'', ''0BSD'',
      ''CC0-1.0'', ''Python-2.0'', ''Unlicense'']"

definition PROHIBITED_PATTERNS :: "string list" where
  "PROHIBITED_PATTERNS = [''GPL'', ''LGPL'', ''AGPL'', ''SSPL'', ''BUSL'', ''Copyleft'']"

subsection \<open>isLicenseAllowed\<close>

text \<open>
  The loop over \<^verbatim>\<open>PROHIBITED_PATTERNS\<close> that returns false at the first pattern that
  matches.
\<close>

definition matchesProhibited :: "string \<Rightarrow> bool" where
  "matchesProhibited license = list_ex (\<lambda>pattern. test pattern license) PROHIBITED_PATTERNS"

definition isLicenseAllowed :: "string \<Rightarrow> string list \<Rightarrow> bool" where
  "isLicenseAllowed license allowedLicenses =
     (if license = [] \<or> license = ''UNKNOWN'' then False
      else if matchesProhibited license then False
      else (let normalizedLicense = toUpperCase license
            in list_ex (\<lambda>allowed. str_includes normalizedLicense (toUpperCase allowed))
                 allowedLicenses))"

text \<open>
  The same function with \<^verbatim>\<open>String.prototype.toUpperCase\<close> as a parameter: the body of
  \<open>isLicenseAllowed\<close> as it is written, for whatever upper-casing the runtime performs.
  JavaScript maps case by the Unicode tables, and not always character by character (the
  sharp s becomes \<^verbatim>\<open>SS\<close>); what is proved of \<open>isLicenseAllowedWith\<close> for every
  \<open>toUpper\<close> holds of the program on every string. \<open>isLicenseAllowed\<close> is the instance
  at \<open>toUpperCase\<close>, which is the program on ASCII text.
\<close>

definition isLicenseAllowedWith :: "(string \<Rightarrow> string) \<Rightarrow> string \<Rightarrow> string list \<Rightarrow> bool" where
  "isLicenseAllowedWith toUpper license allowedLicenses =
     (if license = [] \<or> license = ''UNKNOWN'' then False
      else if matchesProhibited license then False
      else (let normalizedLicense = toUpper license
            in list_ex (\<lambda>allowed. str_includes normalizedLicense (toUpper allowed))
                 allowedLicenses))"

text \<open>
  An upper-casing that does not keep the length, as the one of JavaScript does not: the
  sharp s (the bytes C3 9F) becomes \<^verbatim>\<open>SS\<close>, every other character is mapped by
  \<open>toUpperChar\<close>.
\<close>

fun toUpperSharpS :: "string \<Rightarrow> string" where
  "toUpperSharpS (c # d # cs) =
     (if c = CHR 0xC3 \<and> d = CHR 0x9F then ''SS'' @ toUpperSharpS cs
      else toUpperChar c # toUpperSharpS (d # cs))"
| "toUpperSharpS [c] = [toUpperChar c]"
| "toUpperSharpS [] = []"

subsection \<open>Data model\<close>

text \<open>
  The interfaces of \<^verbatim>\<open>types.ts\<close>. Counters are natural numbers. Field names are
  global in a theory, so the \<^verbatim>\<open>license\<close> and \<^verbatim>\<open>version\<close> of a violation are
  \<open>v_license\<close> and \<open>v_version\<close>, the \<^verbatim>\<open>total\<close> of a summary is \<open>total_s\<close>,
  and the \<^verbatim>\<open>violations\<close> of a report are its \<open>violationList\<close>.
\<close>

record PackageInfo =
  license :: string
  version :: string

record Violation =
  package :: string
  v_license :: string
  v_version :: string

record Summary =
  total_s :: nat
  allowed :: nat
  violations :: nat

text \<open>
  \<^verbatim>\<open>Record<string, PackageInfo>\<close>: the entries in property order. The keys written
  by this program are all of the form \<^verbatim>\<open>name@version\<close>; such a key contains
  \<^verbatim>\<open>@\<close>, so it is never an array index and JavaScript keeps it in insertion order.
  Assigning to a key that exists replaces the value in place, assigning to a new key
  appends: this is \<^const>\<open>AList.update\<close>.
\<close>

type_synonym license_map = "(string \<times> PackageInfo) list"

record LicenseReport =
  summary :: Summary
  allowedLicenses :: "string list"
  licenses :: license_map
  violationList :: "Violation list"

text \<open>
  A value produced by \<^verbatim>\<open>JSON.parse\<close>. An object is the list of its properties
  (distinct keys). Of a number only its being zero is ever inspected.
\<close>

datatype json =
    JNull
  | JBool bool
  | JNum rat
  | JStr string
  | JArr "json list"
  | JObj "(string \<times> json) list"

text \<open>JavaScript truthiness, as used by \<^verbatim>\<open>x || y\<close>.\<close>

fun truthy :: "json \<Rightarrow> bool" where
  "truthy JNull = False"
| "truthy (JBool b) = b"
| "truthy (JNum r) = (r \<noteq> 0)"
| "truthy (JStr s) = (s \<noteq> [])"
| "truthy (JArr xs) = True"
| "truthy (JObj props) = True"

text \<open>A \<^verbatim>\<open>string[]\<close> as a JSON value.\<close>

definition strings :: "string list \<Rightarrow> json" where
  "strings xs = JArr (map JStr xs)"

text \<open>
  A parsed \<^verbatim>\<open>package.json\<close>, with the fields that matter here: the optional
  \<^verbatim>\<open>dependencies\<close> and \<^verbatim>\<open>devDependencies\<close>, mappings of names to range strings in
  \<^verbatim>\<open>Object.entries\<close> order, and the optional \<^verbatim>\<open>license\<close> and \<^verbatim>\<open>version\<close>, at
  the type \<^verbatim>\<open>string\<close> that \<^verbatim>\<open>PackageInfo\<close> declares for them. A parsed value that is
  not an object has none of the four. A descriptor whose \<^verbatim>\<open>license\<close> is not a string
  (the legacy object with a \<^verbatim>\<open>type\<close> and a \<^verbatim>\<open>url\<close>) is not a value of this type:
  what is proved below is about descriptors with string fields.
\<close>

record package_json =
  dependencies :: "(string \<times> string) list option"
  devDependencies :: "(string \<times> string) list option"
  pj_license :: "string option"
  pj_version :: "string option"

subsection \<open>The filesystem\<close>

text \<open>
  A path is the list of its segments; \<^verbatim>\<open>path.join\<close> appends a segment. The empty
  list stands for the empty string.
\<close>

type_synonym path = "string list"

definition join :: "path \<Rightarrow> string \<Rightarrow> path" where
  "join dir name = dir @ [name]"

text \<open>
  What \<^verbatim>\<open>readdirSync(dir, {withFileTypes: true})\<close> sees. A directory lists its
  entries; \<open>Unreadable e\<close> is an entry that reports itself as a directory and
  whose listing raises \<open>e\<close> (no permission, removed in the meantime); \<open>File\<close> is
  any entry for which \<^verbatim>\<open>isDirectory()\<close> is false (a regular file, a symbolic link,
  broken or not). Listing a \<open>File\<close> raises as well.
\<close>

datatype fs_error = EACCES | ENOENT | ENOTDIR | ELOOP | EIO

datatype node =
    File
  | Dir "(string \<times> node) list"
  | Unreadable fs_error

fun isDirectory :: "node \<Rightarrow> bool" where
  "isDirectory File = False"
| "isDirectory (Dir entries) = True"
| "isDirectory (Unreadable e) = True"

text \<open>
  The state the program reads: the working directory, the tree below it, and the outcome
  of reading and parsing the file at a path. \<open>readConfig fs p = None\<close> when
  \<^verbatim>\<open>readFileSync\<close> or \<^verbatim>\<open>JSON.parse\<close> raises; the configuration file is kept as
  the JSON value it parses to, since nothing in the program checks its shape.
  \<open>readPackageJson fs p = None\<close> when \<^verbatim>\<open>realpathSync\<close>, \<^verbatim>\<open>readFileSync\<close> or
  \<^verbatim>\<open>JSON.parse\<close> raises, or when the file parses to \<^verbatim>\<open>null\<close>, on which the
  property access that follows raises. The two maps and the tree are independent: every
  outcome of every read is covered, whatever links the paths go through.
\<close>

record filesystem =
  cwd :: path
  tree :: node
  readConfig :: "path \<rightharpoonup> json"
  readPackageJson :: "path \<rightharpoonup> package_json"

subsection \<open>loadConfig\<close>

text \<open>
  \<^verbatim>\<open>config.allowedLicenses\<close>: \<open>None\<close> is \<^verbatim>\<open>undefined\<close>. Only an object can
  hold the property; a number, a string, a boolean or an array has none of that name.
  (\<^verbatim>\<open>null\<close> raises, and is handled in \<open>loadConfig\<close>.)
\<close>

fun allowedLicensesOf :: "json \<Rightarrow> json option" where
  "allowedLicensesOf (JObj props) = map_of props ''allowedLicenses''"
| "allowedLicensesOf config = None"

text \<open>\<^verbatim>\<open>configPath || join(process.cwd(), ".licenserc.json")\<close>: an absent and an empty
  path are both falsy.\<close>

definition configFilePath :: "filesystem \<Rightarrow> path option \<Rightarrow> path" where
  "configFilePath fs configPath =
     (case configPath of
        None \<Rightarrow> join (cwd fs) ''.licenserc.json''
      | Some p \<Rightarrow> if p = [] then join (cwd fs) ''.licenserc.json'' else p)"

text \<open>
  The value is returned as parsed: the annotation \<^verbatim>\<open>LicenseConfig\<close> is erased at run
  time, so the result is a JSON value and not always a list of strings. The first two
  cases are the \<^verbatim>\<open>catch\<close> branch (the read or the parse raised; the property access
  on \<^verbatim>\<open>null\<close> raised), the last two defaults are the right operand of \<^verbatim>\<open>||\<close>.
\<close>

definition loadConfig :: "filesystem \<Rightarrow> path option \<Rightarrow> json" where
  "loadConfig fs configPath =
     (case readConfig fs (configFilePath fs configPath) of
        None \<Rightarrow> strings DEFAULT_ALLOWED_LICENSES
      | Some JNull \<Rightarrow> strings DEFAULT_ALLOWED_LICENSES
      | Some config \<Rightarrow>
          (case allowedLicensesOf config of
             None \<Rightarrow> strings DEFAULT_ALLOWED_LICENSES
           | Some v \<Rightarrow> if truthy v then v else strings DEFAULT_ALLOWED_LICENSES))"

text \<open>
  The shape \<^verbatim>\<open>LicenseConfig\<close> of \<^verbatim>\<open>types.ts\<close> declares for the file: an object
  whose optional \<^verbatim>\<open>allowedLicenses\<close> and \<^verbatim>\<open>excludedPackages\<close> are arrays of
  strings and whose optional \<^verbatim>\<open>notes\<close> is an object of strings.
\<close>

fun isString :: "json \<Rightarrow> bool" where
  "isString (JStr s) = True"
| "isString v = False"

fun isStringArray :: "json \<Rightarrow> bool" where
  "isStringArray (JArr xs) = list_all isString xs"
| "isStringArray v = False"

fun isStringRecord :: "json \<Rightarrow> bool" where
  "isStringRecord (JObj props) = list_all (\<lambda>p. isString (snd p)) props"
| "isStringRecord v = False"

fun optionalField :: "(json \<Rightarrow> bool) \<Rightarrow> json option \<Rightarrow> bool" where
  "optionalField P None = True"
| "optionalField P (Some v) = P v"

fun isLicenseConfig :: "json \<Rightarrow> bool" where
  "isLicenseConfig (JObj props) =
     (optionalField isStringArray (map_of props ''allowedLicenses'') \<and>
      optionalField isStringArray (map_of props ''excludedPackages'') \<and>
      optionalField isStringRecord (map_of props ''notes''))"
| "isLicenseConfig v = False"

subsection \<open>Workspace discovery\<close>

definition excludedNames :: "string list" where
  "excludedNames =
     [''node_modules'', ''.git'', ''.turbo'', ''.next'', ''dist'', ''coverage'', ''build'']"

text \<open>
  \<open>findAllPackageJsonDirs dir n results\<close>, where \<open>n\<close> is what is found at
  \<open>dir\<close>. The array \<open>results\<close> is shared by all recursive calls and grows in
  place, so it is passed through. Only \<^verbatim>\<open>readdirSync\<close> can raise inside the
  \<^verbatim>\<open>try\<close>, before anything is pushed; the \<^verbatim>\<open>catch\<close> then falls through to
  \<^verbatim>\<open>return results\<close>. \<open>scanEntries\<close> is the \<^verbatim>\<open>for\<close> loop.
\<close>

fun findAllPackageJsonDirs :: "path \<Rightarrow> node \<Rightarrow> path list \<Rightarrow> path list"
  and scanEntries :: "path \<Rightarrow> (string \<times> node) list \<Rightarrow> path list \<Rightarrow> path list"
where
  "findAllPackageJsonDirs dir (Dir entries) results = scanEntries dir entries results"
| "findAllPackageJsonDirs dir File results = results"
| "findAllPackageJsonDirs dir (Unreadable e) results = results"
| "scanEntries dir [] results = results"
| "scanEntries dir ((name, n) # rest) results =
     (if name \<in> set excludedNames then scanEntries dir rest results
      else if isDirectory n then
        scanEntries dir rest (findAllPackageJsonDirs (join dir name) n results)
      else if name = ''package.json'' then scanEntries dir rest (results @ [dir])
      else scanEntries dir rest results)"

definition getWorkspaceDirs :: "filesystem \<Rightarrow> path list" where
  "getWorkspaceDirs fs =
     (let rootDir = cwd fs;
          allDirs = findAllPackageJsonDirs rootDir (tree fs) []
      in filter (\<lambda>dir. dir \<noteq> rootDir) allDirs)"

subsection \<open>License resolution\<close>

text \<open>\<^verbatim>\<open>x || "UNKNOWN"\<close> for an optional string: absent and empty are both falsy.\<close>

fun orUnknown :: "string option \<Rightarrow> string" where
  "orUnknown None = ''UNKNOWN''"
| "orUnknown (Some s) = (if s = [] then ''UNKNOWN'' else s)"

text \<open>
  The body of the inner \<^verbatim>\<open>try\<close>: the entry one dependency contributes, \<open>None\<close>
  when the installed descriptor cannot be read (the \<^verbatim>\<open>catch\<close> skips it).
\<close>

definition resolveDependency :: "filesystem \<Rightarrow> path \<Rightarrow> string \<Rightarrow> (string \<times> PackageInfo) option" where
  "resolveDependency fs dir name =
     (let depPath = join (join (join dir ''node_modules'') name) ''package.json''
      in case readPackageJson fs depPath of
           None \<Rightarrow> None
         | Some depPackageJson \<Rightarrow>
             (let license = orUnknown (pj_license depPackageJson);
                  version = orUnknown (pj_version depPackageJson)
              in Some (name @ ''@'' @ version, \<lparr>license = license, version = version\<rparr>)))"

text \<open>The loop over \<^verbatim>\<open>Object.entries(deps)\<close>; only the names are used.\<close>

fun resolveAll :: "filesystem \<Rightarrow> path \<Rightarrow> string list \<Rightarrow> license_map \<Rightarrow> license_map" where
  "resolveAll fs dir [] lics = lics"
| "resolveAll fs dir (name # rest) lics =
     (case resolveDependency fs dir name of
        None \<Rightarrow> resolveAll fs dir rest lics
      | Some (key, info) \<Rightarrow> resolveAll fs dir rest (AList.update key info lics))"

definition getLicensesFromPackageJson :: "filesystem \<Rightarrow> path \<Rightarrow> license_map" where
  "getLicensesFromPackageJson fs dir =
     (case readPackageJson fs (join dir ''package.json'') of
        None \<Rightarrow> []
      | Some packageJson \<Rightarrow>
          (let deps = (case dependencies packageJson of None \<Rightarrow> [] | Some d \<Rightarrow> d)
           in resolveAll fs dir (map fst deps) []))"

text \<open>\<^verbatim>\<open>Object.assign(target, source)\<close>: every entry of the source, in order.\<close>

definition assign :: "license_map \<Rightarrow> license_map \<Rightarrow> license_map" where
  "assign target source = foldl (\<lambda>acc (key, info). AList.update key info acc) target source"

definition getLicenses :: "filesystem \<Rightarrow> license_map" where
  "getLicenses fs =
     foldl (\<lambda>allLicenses dir. assign allLicenses (getLicensesFromPackageJson fs dir))
       [] (getWorkspaceDirs fs)"

subsection \<open>Compliance evaluation\<close>

text \<open>
  The loop of \<open>checkLicenses\<close> over \<^verbatim>\<open>Object.entries(licenses)\<close>, on the pair of
  the summary and the violation list that it updates.
\<close>

text \<open>The object pushed for a violation; \<^verbatim>\<open>license || "UNKNOWN"\<close> guards the empty string.\<close>

definition violationOf :: "string \<Rightarrow> PackageInfo \<Rightarrow> Violation" where
  "violationOf packageName info =
     \<lparr>package = packageName,
      v_license = (if license info = [] then ''UNKNOWN'' else license info),
      v_version = version info\<rparr>"

fun classify :: "string list \<Rightarrow> license_map \<Rightarrow> Summary \<times> Violation list \<Rightarrow> Summary \<times> Violation list" where
  "classify allowedList [] (s, vs) = (s, vs)"
| "classify allowedList ((packageName, info) # rest) (s, vs) =
     (if isLicenseAllowed (license info) allowedList
      then classify allowedList rest (s\<lparr>allowed := allowed s + 1\<rparr>, vs)
      else classify allowedList rest
             (s\<lparr>violations := violations s + 1\<rparr>, vs @ [violationOf packageName info]))"

text \<open>
  \<open>checkLicenses\<close> without its console output, which does not change the report.
  \<open>allowedList\<close> is the value of \<^verbatim>\<open>loadConfig()\<close>, at its declared type
  \<^verbatim>\<open>string[]\<close> (the value is \<open>strings allowedList\<close> whenever the configuration file
  is missing, unreadable or of the declared shape, see \<open>loadConfig_typed\<close> below);
  \<open>evaluate\<close> is the part of the function after the two reads.
\<close>

definition evaluate :: "string list \<Rightarrow> license_map \<Rightarrow> LicenseReport" where
  "evaluate allowedList lics =
     (let (s, vs) = classify allowedList lics
                      (\<lparr>total_s = length lics, allowed = 0, violations = 0\<rparr>, [])
      in \<lparr>summary = s, allowedLicenses = allowedList, licenses = lics,
          violationList = vs\<rparr>)"

definition checkLicenses :: "string list \<Rightarrow> filesystem \<Rightarrow> LicenseReport" where
  "checkLicenses allowedList fs = evaluate allowedList (getLicenses fs)"

subsection \<open>Invariants of the resolved mapping\<close>

text \<open>
  Two invariants of every mapping the program builds: the keys are distinct, and no entry
  has an empty license (\<open>resolveDependency\<close> has replaced it by \<^verbatim>\<open>UNKNOWN\<close>).
\<close>

definition wellFormed :: "license_map \<Rightarrow> bool" where
  "wellFormed lics = (distinct (map fst lics) \<and> list_all (\<lambda>e. license (snd e) \<noteq> []) lics)"

subsection \<open>The tree without its unreadable directories\<close>

text \<open>
  \<open>prune n\<close> removes, at every depth, the entries whose listing raises. It is used to
  say what such entries contribute to the discovery.
\<close>

fun readable :: "string \<times> node \<Rightarrow> bool" where
  "readable (name, Unreadable e) = False"
| "readable (name, n) = True"

fun prune :: "node \<Rightarrow> node" where
  "prune (Dir entries) = Dir (map (\<lambda>(name, n). (name, prune n)) (filter readable entries))"
| "prune File = File"
| "prune (Unreadable e) = Unreadable e"

subsection \<open>A project without files\<close>

text \<open>The starting point of the concrete filesystems used below.\<close>

definition emptyProject :: filesystem where
  "emptyProject =
     \<lparr>cwd = [''proj''], tree = Dir [], readConfig = map_of [], readPackageJson = map_of []\<rparr>"

text \<open>
  The same project with the configuration file \<^verbatim>\<open>{"allowedLicenses": "MIT"}\<close>.
\<close>

definition stringConfigProject :: filesystem where
  "stringConfigProject =
     \<lparr>cwd = [''proj''], tree = Dir [],
      readConfig =
        map_of [([''proj'', ''.licenserc.json''], JObj [(''allowedLicenses'', JStr ''MIT'')])],
      readPackageJson = map_of []\<rparr>"

subsection \<open>Two workspaces, one violation\<close>

text \<open>
  The tree of the integration test "should detect mixed violations across workspaces":
  \<^verbatim>\<open>apps/app1\<close> depends on an MIT package, \<^verbatim>\<open>apps/app2\<close> on a GPL-3.0 package.
\<close>

definition mixedProject :: filesystem where
  "mixedProject =
     \<lparr>cwd = [''proj''],
      tree = Dir [(''apps'', Dir
        [(''app1'', Dir [(''package.json'', File),
                        (''node_modules'', Dir [(''mit-pkg'', Dir [(''package.json'', File)])])]),
         (''app2'', Dir [(''package.json'', File),
                        (''node_modules'', Dir [(''gpl-pkg'', Dir [(''package.json'', File)])])])])],
      readConfig = map_of [],
      readPackageJson = map_of
        [([''proj'', ''apps'', ''app1'', ''package.json''],
          \<lparr>dependencies = Some [(''mit-pkg'', ''^1.0.0'')], devDependencies = None,
           pj_license = None, pj_version = None\<rparr>),
         ([''proj'', ''apps'', ''app1'', ''node_modules'', ''mit-pkg'', ''package.json''],
          \<lparr>dependencies = None, devDependencies = None,
           pj_license = Some ''MIT'', pj_version = Some ''1.0.0''\<rparr>),
         ([''proj'', ''apps'', ''app2'', ''package.json''],
          \<lparr>dependencies = Some [(''gpl-pkg'', ''^1.0.0'')], devDependencies = None,
           pj_license = None, pj_version = None\<rparr>),
         ([''proj'', ''apps'', ''app2'', ''node_modules'', ''gpl-pkg'', ''package.json''],
          \<lparr>dependencies = None, devDependencies = None,
           pj_license = Some ''GPL-3.0'', pj_version = Some ''1.0.0''\<rparr>)]\<rparr>"

subsection \<open>A dependency without a license\<close>

text \<open>
  The packages of the unit test "should handle missing license field", in a workspace
  \<^verbatim>\<open>apps/app1\<close>: the installed descriptor of the only production dependency has no
  \<^verbatim>\<open>license\<close> field. The workspace also lists a development dependency, which is
  installed and carries a prohibited license.
\<close>

definition unlicensedProject :: filesystem where
  "unlicensedProject =
     \<lparr>cwd = [''proj''],
      tree = Dir [(''apps'', Dir
        [(''app1'', Dir [(''package.json'', File),
                        (''node_modules'', Dir [(''test-pkg'', Dir [(''package.json'', File)]),
                                                (''dev-tool'', Dir [(''package.json'', File)])])])])],
      readConfig = map_of [],
      readPackageJson = map_of
        [([''proj'', ''apps'', ''app1'', ''package.json''],
          \<lparr>dependencies = Some [(''test-pkg'', ''^1.0.0'')],
           devDependencies = Some [(''dev-tool'', ''^2.0.0'')],
           pj_license = None, pj_version = None\<rparr>),
         ([''proj'', ''apps'', ''app1'', ''node_modules'', ''test-pkg'', ''package.json''],
          \<lparr>dependencies = None, devDependencies = None,
           pj_license = None, pj_version = Some ''1.0.0''\<rparr>),
         ([''proj'', ''apps'', ''app1'', ''node_modules'', ''dev-tool'', ''package.json''],
          \<lparr>dependencies = None, devDependencies = None,
           pj_license = Some ''GPL-3.0'', pj_version = Some ''2.0.0''\<rparr>)]\<rparr>"

subsection \<open>One key, two writers\<close>



section \<open>Properties\<close>

subsection \<open>Strings and matching\<close>

lemma str_includes_iff: "str_includes s n \<longleftrightarrow> (\<exists>ps ss. s = ps @ n @ ss)"
proof (induction s)
  case Nil
  then show ?case by auto
next
  case (Cons c cs)
  show ?case
  proof
    assume "str_includes (c # cs) n"
    then consider "prefix n (c # cs)" | "str_includes cs n" by auto
    then show "\<exists>ps ss. c # cs = ps @ n @ ss"
    proof cases
      case 1
      then obtain zs where "c # cs = n @ zs" by (auto simp: prefix_def)
      then have "c # cs = [] @ n @ zs" by simp
      then show ?thesis by blast
    next
      case 2
      with Cons.IH obtain ps ss where "cs = ps @ n @ ss" by blast
      then have "c # cs = (c # ps) @ n @ ss" by simp
      then show ?thesis by blast
    qed
  next
    assume "\<exists>ps ss. c # cs = ps @ n @ ss"
    then obtain ps ss where eq: "c # cs = ps @ n @ ss" by blast
    show "str_includes (c # cs) n"
    proof (cases ps)
      case Nil
      with eq have "prefix n (c # cs)" by (simp add: prefix_def)
      then show ?thesis by simp
    next
      case (Cons p ps')
      with eq have "cs = ps' @ n @ ss" by simp
      with Cons.IH have "str_includes cs n" by blast
      then show ?thesis by simp
    qed
  qed
qed

lemma list_ex_str_includes:
  "list_ex (\<lambda>a. str_includes h (f a)) xs \<longleftrightarrow> (\<exists>a \<in> set xs. \<exists>ps ss. h = ps @ f a @ ss)"
  by (simp add: list_ex_iff str_includes_iff)

text \<open>
  A pattern matches exactly when the license, in upper case, contains the pattern in upper
  case.
\<close>

lemma test_iff:
  "test pattern s \<longleftrightarrow> (\<exists>ps ss. toUpperCase s = ps @ toUpperCase pattern @ ss)"
  by (simp add: test_def toUpperCase_def str_includes_iff)

lemma matchesProhibited_iff:
  "matchesProhibited L \<longleftrightarrow> (\<exists>pattern \<in> set PROHIBITED_PATTERNS. test pattern L)"
  by (simp add: matchesProhibited_def list_ex_iff)

subsection \<open>isLicenseAllowed\<close>

lemma isLicenseAllowed_prohibited:
  "matchesProhibited L \<Longrightarrow> \<not> isLicenseAllowed L allowedList"
  by (simp add: isLicenseAllowed_def)


lemma isLicenseAllowed_other:
  assumes "L \<noteq> []" "L \<noteq> ''UNKNOWN''" "\<not> matchesProhibited L"
  shows "isLicenseAllowed L allowedList \<longleftrightarrow>
         (\<exists>a \<in> set allowedList. \<exists>ps ss. toUpperCase L = ps @ toUpperCase a @ ss)"
  using assms by (simp add: isLicenseAllowed_def Let_def list_ex_str_includes)

text \<open>
  Claim C1. A license that matches one of the six prohibited patterns (GPL, LGPL, AGPL,
  SSPL, BUSL, Copyleft, case-insensitively) is rejected whatever the allowlist is, also
  when the license itself is an entry of the allowlist.
\<close>

theorem prohibited_precedence:
  assumes "pattern \<in> set PROHIBITED_PATTERNS" and "test pattern L"
  shows "\<not> isLicenseAllowed L allowedList \<and> \<not> isLicenseAllowed L (L # allowedList)"
proof -
  from assms have "matchesProhibited L" by (auto simp: matchesProhibited_iff)
  then show ?thesis by (simp add: isLicenseAllowed_prohibited)
qed

theorem prohibited_precedence_witness:
  "''GPL'' \<in> set PROHIBITED_PATTERNS \<and> test ''GPL'' ''GPL-3.0'' \<and>
   \<not> isLicenseAllowed ''GPL-3.0'' [''MIT'', ''GPL-3.0''] \<and>
   \<not> isLicenseAllowed ''GPL-3.0'' [''GPL-3.0'']"
proof -
  have p: "''GPL'' \<in> set PROHIBITED_PATTERNS" by (simp add: PROHIBITED_PATTERNS_def)
  have t: "test ''GPL'' ''GPL-3.0''" by code_simp
  from prohibited_precedence [OF p t, of "[''MIT'', ''GPL-3.0'']"]
    prohibited_precedence [OF p t, of "[]"] p t
  show ?thesis by simp
qed

lemma isLicenseAllowedWith_toUpperCase:
  "isLicenseAllowedWith toUpperCase L allowedList = isLicenseAllowed L allowedList"
  by (simp add: isLicenseAllowedWith_def isLicenseAllowed_def)

lemma isLicenseAllowedWith_other:
  assumes "L \<noteq> []" "L \<noteq> ''UNKNOWN''" "\<not> matchesProhibited L"
  shows "isLicenseAllowedWith toUpper L allowedList \<longleftrightarrow>
         (\<exists>a \<in> set allowedList. \<exists>ps ss. toUpper L = ps @ toUpper a @ ss)"
  using assms by (simp add: isLicenseAllowedWith_def Let_def list_ex_str_includes)

text \<open>
  Claim C3. Whatever the upper-casing \<open>toUpper\<close> is, that of JavaScript included: the
  empty string and the sentinel \<^verbatim>\<open>UNKNOWN\<close> are rejected under every allowlist, and any
  other license that matches no prohibited pattern is allowed exactly when its upper-case
  form contains the upper-case form of some allowlist entry as a substring. At the
  upper-casing of ASCII text this is \<open>isLicenseAllowed\<close>, so \<^verbatim>\<open>apache-2.0\<close> is allowed
  by the entry \<^verbatim>\<open>Apache-2.0\<close>.
\<close>

theorem isLicenseAllowed_substring:
  "\<not> isLicenseAllowedWith toUpper '''' allowedList \<and>
   \<not> isLicenseAllowedWith toUpper ''UNKNOWN'' allowedList \<and>
   (L \<noteq> '''' \<and> L \<noteq> ''UNKNOWN'' \<and> \<not> matchesProhibited L \<longrightarrow>
      isLicenseAllowedWith toUpper L allowedList =
        (\<exists>a \<in> set allowedList. \<exists>ps ss. toUpper L = ps @ toUpper a @ ss)) \<and>
   isLicenseAllowed L allowedList = isLicenseAllowedWith toUpperCase L allowedList \<and>
   isLicenseAllowed ''Apache-2.0'' [''Apache-2.0''] \<and>
   isLicenseAllowed ''apache-2.0'' [''Apache-2.0'']"
proof -
  have 1: "\<not> isLicenseAllowedWith toUpper '''' allowedList"
    by (simp add: isLicenseAllowedWith_def)
  have 2: "\<not> isLicenseAllowedWith toUpper ''UNKNOWN'' allowedList"
    by (simp add: isLicenseAllowedWith_def)
  have 3: "isLicenseAllowed ''Apache-2.0'' [''Apache-2.0'']" by code_simp
  have 4: "isLicenseAllowed ''apache-2.0'' [''Apache-2.0'']" by code_simp
  have 5: "isLicenseAllowed L allowedList = isLicenseAllowedWith toUpperCase L allowedList"
    by (simp add: isLicenseAllowedWith_toUpperCase)
  from 1 2 3 4 5 show ?thesis
    using isLicenseAllowedWith_other [of L toUpper allowedList] by blast
qed

theorem isLicenseAllowed_substring_witness:
  "''MIT License'' \<noteq> '''' \<and> ''MIT License'' \<noteq> ''UNKNOWN'' \<and>
   \<not> matchesProhibited ''MIT License'' \<and>
   toUpperCase ''MIT License'' = [] @ toUpperCase ''mit'' @ '' LICENSE'' \<and>
   isLicenseAllowed ''MIT License'' [''ISC'', ''mit''] \<and>
   \<not> isLicenseAllowed ''MIT License'' [''ISC'', ''MIT-0''] \<and>
   \<not> matchesProhibited [CHR ''m'', CHR ''i'', CHR 0xC3, CHR 0x9F] \<and>
   toUpperSharpS [CHR ''m'', CHR ''i'', CHR 0xC3, CHR 0x9F] = [] @ toUpperSharpS ''MISS'' @ [] \<and>
   isLicenseAllowedWith toUpperSharpS [CHR ''m'', CHR ''i'', CHR 0xC3, CHR 0x9F] [''MISS'']"
proof -
  let ?miss = "[CHR ''m'', CHR ''i'', CHR 0xC3, CHR 0x9F]"
  have a: "\<not> matchesProhibited ''MIT License''" by code_simp
  have b: "toUpperCase ''MIT License'' = [] @ toUpperCase ''mit'' @ '' LICENSE''" by code_simp
  have c: "\<not> isLicenseAllowed ''MIT License'' [''ISC'', ''MIT-0'']" by code_simp
  have n: "''MIT License'' \<noteq> '''' \<and> ''MIT License'' \<noteq> ''UNKNOWN''" by simp
  have m: "''mit'' \<in> set [''ISC'', ''mit'']" by simp
  from b m have
    "\<exists>a \<in> set [''ISC'', ''mit'']. \<exists>ps ss. toUpperCase ''MIT License'' = ps @ toUpperCase a @ ss"
    by blast
  with a n isLicenseAllowed_substring [of toUpperCase "[''ISC'', ''mit'']" "''MIT License''"]
  have d: "isLicenseAllowed ''MIT License'' [''ISC'', ''mit'']" by blast
  have e: "\<not> matchesProhibited ?miss" by code_simp
  have f: "toUpperSharpS ?miss = [] @ toUpperSharpS ''MISS'' @ []" by code_simp
  have g: "?miss \<noteq> '''' \<and> ?miss \<noteq> ''UNKNOWN''" by simp
  from f have
    "\<exists>a \<in> set [''MISS'']. \<exists>ps ss. toUpperSharpS ?miss = ps @ toUpperSharpS a @ ss"
    by (metis list.set_intros(1))
  with e g isLicenseAllowed_substring [of toUpperSharpS "[''MISS'']" ?miss]
  have h: "isLicenseAllowedWith toUpperSharpS ?miss [''MISS'']" by blast
  from a b c d n e f h show ?thesis by blast
qed

text \<open>
  Claim C10. If the empty string is an entry of the allowlist, every license that is not
  empty, not \<^verbatim>\<open>UNKNOWN\<close> and matches no prohibited pattern is allowed: every string
  contains the empty string.
\<close>

theorem empty_entry_allows_all:
  assumes "'''' \<in> set allowedList" and "L \<noteq> ''''" and "L \<noteq> ''UNKNOWN''"
    and "\<not> matchesProhibited L"
  shows "isLicenseAllowed L allowedList"
proof -
  have "toUpperCase L = [] @ toUpperCase '''' @ toUpperCase L" by (simp add: toUpperCase_def)
  with assms(1) have "\<exists>a \<in> set allowedList. \<exists>ps ss. toUpperCase L = ps @ toUpperCase a @ ss"
    by blast
  with assms(2-4) show ?thesis by (simp add: isLicenseAllowed_other)
qed

theorem empty_entry_allows_all_witness:
  "'''' \<in> set [''MIT'', ''''] \<and> ''Proprietary'' \<noteq> '''' \<and> ''Proprietary'' \<noteq> ''UNKNOWN'' \<and>
   \<not> matchesProhibited ''Proprietary'' \<and> isLicenseAllowed ''Proprietary'' [''MIT'', '''']"
proof -
  have m: "'''' \<in> set [''MIT'', '''']" by simp
  have n1: "''Proprietary'' \<noteq> ''''" by simp
  have n2: "''Proprietary'' \<noteq> ''UNKNOWN''" by simp
  have p: "\<not> matchesProhibited ''Proprietary''" by code_simp
  from empty_entry_allows_all [OF m n1 n2 p] m n1 n2 p show ?thesis by simp
qed


subsection \<open>loadConfig\<close>

lemma loadConfig_read_fails:
  "readConfig fs (configFilePath fs cp) = None \<Longrightarrow>
   loadConfig fs cp = strings DEFAULT_ALLOWED_LICENSES"
  by (simp add: loadConfig_def)

lemma loadConfig_field:
  "readConfig fs (configFilePath fs cp) = Some c \<Longrightarrow>
   loadConfig fs cp =
     (case allowedLicensesOf c of
        None \<Rightarrow> strings DEFAULT_ALLOWED_LICENSES
      | Some v \<Rightarrow> if truthy v then v else strings DEFAULT_ALLOWED_LICENSES)"
  by (cases c) (simp_all add: loadConfig_def)

lemma DEFAULT_ALLOWED_LICENSES_length: "length DEFAULT_ALLOWED_LICENSES = 9"
  by (simp add: DEFAULT_ALLOWED_LICENSES_def)

lemma isStringArray_strings: "isStringArray v \<Longrightarrow> \<exists>xs. v = strings xs"
proof (cases v)
  case (JArr vs)
  assume "isStringArray v"
  with JArr have "list_all isString vs" by simp
  then have "\<exists>xs. vs = map JStr xs"
  proof (induction vs)
    case Nil
    then show ?case by simp
  next
    case (Cons a vs)
    then obtain xs where xs: "vs = map JStr xs" by auto
    from Cons.prems obtain x where "a = JStr x" by (cases a) simp_all
    with xs have "a # vs = map JStr (x # xs)" by simp
    then show ?case by (rule exI)
  qed
  with JArr show ?thesis by (auto simp: strings_def)
qed simp_all

text \<open>
  When the configuration file is missing or unreadable, or has the declared shape, the
  result is a list of strings, as the signature of \<open>loadConfig\<close> says.
\<close>

lemma loadConfig_typed:
  assumes "\<forall>c. readConfig fs (configFilePath fs cp) = Some c \<longrightarrow> isLicenseConfig c"
  shows "\<exists>xs. loadConfig fs cp = strings xs"
proof (cases "readConfig fs (configFilePath fs cp)")
  case None
  then show ?thesis by (auto simp: loadConfig_read_fails)
next
  case (Some c)
  with assms have shape: "isLicenseConfig c" by simp
  then obtain props where c: "c = JObj props" by (cases c) simp_all
  show ?thesis
  proof (cases "map_of props ''allowedLicenses''")
    case None
    with Some c show ?thesis by (auto simp: loadConfig_field)
  next
    case (Some v)
    with shape c have "isStringArray v" by simp
    then obtain xs where "v = strings xs" by (auto dest: isStringArray_strings)
    with Some c \<open>readConfig fs (configFilePath fs cp) = Some c\<close> show ?thesis
      by (auto simp: loadConfig_field strings_def)
  qed
qed

text \<open>
  On a file that is missing, unreadable or of the declared shape, \<open>loadConfig\<close> does what
  its signature says: the default list when the field is absent, the configured list,
  exactly, when it is present.
\<close>

lemma loadConfig_declared_shape:
  assumes "\<forall>c. readConfig fs (configFilePath fs cp) = Some c \<longrightarrow> isLicenseConfig c"
  shows "loadConfig fs cp =
     (case readConfig fs (configFilePath fs cp) of
        None \<Rightarrow> strings DEFAULT_ALLOWED_LICENSES
      | Some c \<Rightarrow>
          (case allowedLicensesOf c of
             None \<Rightarrow> strings DEFAULT_ALLOWED_LICENSES
           | Some v \<Rightarrow> v))"
proof (cases "readConfig fs (configFilePath fs cp)")
  case None
  then show ?thesis by (simp add: loadConfig_read_fails)
next
  case (Some c)
  with assms have shape: "isLicenseConfig c" by simp
  then obtain props where c: "c = JObj props" by (cases c) simp_all
  show ?thesis
  proof (cases "allowedLicensesOf c")
    case None
    with Some show ?thesis by (simp add: loadConfig_field)
  next
    case field: (Some v)
    with shape c have "isStringArray v" by simp
    then have "truthy v" by (cases v) simp_all
    with Some field show ?thesis by (simp add: loadConfig_field)
  qed
qed

text \<open>
  Claim C2. The claim gives the default list to every file of the wrong shape. The code
  does so when the file parses to \<^verbatim>\<open>null\<close>, to a value that is not an object, or to an
  object whose field is falsy (\<open>loadConfig_field\<close>), but not when the field holds a truthy
  value that is not an array: for the file \<^verbatim>\<open>{"allowedLicenses": "MIT"}\<close>, which does
  not have the shape \<^verbatim>\<open>LicenseConfig\<close>, \<open>loadConfig\<close> returns the string
  \<^verbatim>\<open>"MIT"\<close>. That value is neither the default list nor a \<^verbatim>\<open>string[]\<close>, the return
  type the function declares.
\<close>

theorem loadConfig_string_field_returned:
  "readConfig stringConfigProject (configFilePath stringConfigProject None) =
     Some (JObj [(''allowedLicenses'', JStr ''MIT'')]) \<and>
   \<not> isLicenseConfig (JObj [(''allowedLicenses'', JStr ''MIT'')]) \<and>
   loadConfig stringConfigProject None = JStr ''MIT'' \<and>
   \<not> isStringArray (JStr ''MIT'') \<and>
   JStr ''MIT'' \<noteq> strings DEFAULT_ALLOWED_LICENSES"
  by (simp add: loadConfig_def configFilePath_def join_def stringConfigProject_def strings_def)


subsection \<open>The resolved mapping\<close>

lemma set_update_subset: "set (AList.update k v al) \<subseteq> insert (k, v) (set al)"
  by (induction al) auto

lemma resolveDependency_license:
  assumes "resolveDependency fs dir name = Some (k, i)"
  shows "license i \<noteq> []"
proof -
  have "orUnknown x \<noteq> []" for x by (cases x rule: orUnknown.cases) simp_all
  with assms show ?thesis
    by (auto simp: resolveDependency_def Let_def split: option.splits)
qed

lemma wellFormed_Nil: "wellFormed []"
  by (simp add: wellFormed_def)

lemma wellFormed_update:
  assumes "wellFormed lics" and "license i \<noteq> []"
  shows "wellFormed (AList.update k i lics)"
proof -
  from assms(1) have "distinct (map fst (AList.update k i lics))"
    by (simp add: wellFormed_def distinct_update)
  moreover have "\<forall>e \<in> set (AList.update k i lics). license (snd e) \<noteq> []"
    using set_update_subset [of k i lics] assms by (auto simp: wellFormed_def list_all_iff)
  ultimately show ?thesis by (simp add: wellFormed_def list_all_iff)
qed

lemma wellFormed_resolveAll:
  "wellFormed acc \<Longrightarrow> wellFormed (resolveAll fs dir names acc)"
proof (induction names arbitrary: acc)
  case Nil
  then show ?case by simp
next
  case (Cons name names)
  show ?case
  proof (cases "resolveDependency fs dir name")
    case None
    with Cons show ?thesis by simp
  next
    case (Some e)
    obtain k i where e: "e = (k, i)" by (cases e)
    from Some e have "license i \<noteq> []" by (auto dest: resolveDependency_license)
    with Cons.prems have "wellFormed (AList.update k i acc)" by (rule wellFormed_update)
    with Cons.IH Some e show ?thesis by simp
  qed
qed

lemma wellFormed_getLicensesFromPackageJson: "wellFormed (getLicensesFromPackageJson fs dir)"
  by (simp add: getLicensesFromPackageJson_def wellFormed_resolveAll wellFormed_Nil
      split: option.splits)

lemma wellFormed_assign:
  "wellFormed target \<Longrightarrow> list_all (\<lambda>e. license (snd e) \<noteq> []) source \<Longrightarrow>
   wellFormed (assign target source)"
  unfolding assign_def
proof (induction source arbitrary: target)
  case Nil
  then show ?case by simp
next
  case (Cons e source)
  obtain k i where e: "e = (k, i)" by (cases e)
  from Cons.prems e have "wellFormed (AList.update k i target)"
    by (simp add: wellFormed_update)
  with Cons.IH [of "AList.update k i target"] Cons.prems(2) e show ?case by simp
qed

lemma wellFormed_foldl_assign:
  "wellFormed acc \<Longrightarrow>
   wellFormed (foldl (\<lambda>allLicenses dir. assign allLicenses (getLicensesFromPackageJson fs dir))
                 acc dirs)"
proof (induction dirs arbitrary: acc)
  case Nil
  then show ?case by simp
next
  case (Cons dir dirs)
  have "wellFormed (getLicensesFromPackageJson fs dir)"
    by (rule wellFormed_getLicensesFromPackageJson)
  then have "list_all (\<lambda>e. license (snd e) \<noteq> []) (getLicensesFromPackageJson fs dir)"
    by (simp add: wellFormed_def)
  with Cons.prems have "wellFormed (assign acc (getLicensesFromPackageJson fs dir))"
    by (rule wellFormed_assign)
  with Cons.IH show ?case by simp
qed

lemma wellFormed_getLicenses: "wellFormed (getLicenses fs)"
  by (simp add: getLicenses_def wellFormed_foldl_assign wellFormed_Nil)

subsection \<open>Compliance evaluation\<close>

lemma classify_eq:
  "classify a lics (s, vs) =
     (s\<lparr>allowed := allowed s + length (filter (\<lambda>(k, i). isLicenseAllowed (license i) a) lics),
        violations :=
          violations s + length (filter (\<lambda>(k, i). \<not> isLicenseAllowed (license i) a) lics)\<rparr>,
      vs @ map (\<lambda>(k, i). violationOf k i)
             (filter (\<lambda>(k, i). \<not> isLicenseAllowed (license i) a) lics))"
proof (induction lics arbitrary: s vs)
  case Nil
  show ?case by simp
next
  case (Cons e lics)
  obtain k i where e: "e = (k, i)" by (cases e)
  show ?case by (simp add: e Cons.IH)
qed

lemma evaluate_eq:
  "evaluate a lics =
     \<lparr>summary =
        \<lparr>total_s = length lics,
         allowed = length (filter (\<lambda>(k, i). isLicenseAllowed (license i) a) lics),
         violations = length (filter (\<lambda>(k, i). \<not> isLicenseAllowed (license i) a) lics)\<rparr>,
      allowedLicenses = a, licenses = lics,
      violationList = map (\<lambda>(k, i). violationOf k i)
                        (filter (\<lambda>(k, i). \<not> isLicenseAllowed (license i) a) lics)\<rparr>"
  by (simp add: evaluate_def classify_eq)

lemma length_filter_split:
  "length xs = length (filter (\<lambda>(k, i). P k i) xs) + length (filter (\<lambda>(k, i). \<not> P k i) xs)"
  by (induction xs) auto

lemma mixedProject_report:
  "checkLicenses DEFAULT_ALLOWED_LICENSES mixedProject =
     \<lparr>summary = \<lparr>total_s = 2, allowed = 1, violations = 1\<rparr>,
      allowedLicenses = DEFAULT_ALLOWED_LICENSES,
      licenses = [(''mit-pkg@1.0.0'', \<lparr>license = ''MIT'', version = ''1.0.0''\<rparr>),
                  (''gpl-pkg@1.0.0'', \<lparr>license = ''GPL-3.0'', version = ''1.0.0''\<rparr>)],
      violationList = [\<lparr>package = ''gpl-pkg@1.0.0'', v_license = ''GPL-3.0'',
                         v_version = ''1.0.0''\<rparr>]\<rparr>"
  by code_simp

text \<open>
  Claim C4. In the report of \<open>checkLicenses\<close> the total is the sum of the allowed and
  the violation counts, it is the number of keys of the licenses mapping, and the
  violation list has as many elements as the summary counts violations.
\<close>

theorem summary_invariant:
  "total_s (summary (checkLicenses a fs)) =
     allowed (summary (checkLicenses a fs)) + violations (summary (checkLicenses a fs)) \<and>
   total_s (summary (checkLicenses a fs)) = card (dom (map_of (licenses (checkLicenses a fs)))) \<and>
   length (violationList (checkLicenses a fs)) = violations (summary (checkLicenses a fs))"
proof -
  let ?lics = "getLicenses fs"
  have "distinct (map fst ?lics)"
    using wellFormed_getLicenses [of fs] by (simp add: wellFormed_def)
  then have "card (dom (map_of ?lics)) = length ?lics"
    by (simp add: dom_map_of_conv_image_fst distinct_card flip: set_map)
  moreover have "length ?lics =
      length (filter (\<lambda>(k, i). isLicenseAllowed (license i) a) ?lics) +
      length (filter (\<lambda>(k, i). \<not> isLicenseAllowed (license i) a) ?lics)"
    by (rule length_filter_split)
  ultimately show ?thesis by (simp add: checkLicenses_def evaluate_eq)
qed

theorem summary_invariant_witness:
  "total_s (summary (checkLicenses DEFAULT_ALLOWED_LICENSES mixedProject)) = 1 + 1 \<and>
   card (dom (map_of (licenses (checkLicenses DEFAULT_ALLOWED_LICENSES mixedProject)))) = 2 \<and>
   length (violationList (checkLicenses DEFAULT_ALLOWED_LICENSES mixedProject)) = 1"
  using summary_invariant [of DEFAULT_ALLOWED_LICENSES mixedProject]
  by (simp add: mixedProject_report)

text \<open>
  Claim C9. The violation list of a report holds exactly the entries of the licenses
  mapping whose license \<open>isLicenseAllowed\<close> rejects, in the order of the mapping, each
  as the record of its key, its license and its version.
\<close>

theorem violations_are_rejected_entries:
  "violationList (checkLicenses a fs) =
     map (\<lambda>(key, info). \<lparr>package = key, v_license = license info, v_version = version info\<rparr>)
       (filter (\<lambda>(key, info). \<not> isLicenseAllowed (license info) a)
          (licenses (checkLicenses a fs)))"
proof -
  have "list_all (\<lambda>e. license (snd e) \<noteq> []) (getLicenses fs)"
    using wellFormed_getLicenses [of fs] by (simp add: wellFormed_def)
  then have "map (\<lambda>(k, i). violationOf k i) (filter P (getLicenses fs)) =
      map (\<lambda>(k, i). \<lparr>package = k, v_license = license i, v_version = version i\<rparr>)
        (filter P (getLicenses fs))" for P
    by (auto simp: list_all_iff violationOf_def)
  then show ?thesis by (simp add: checkLicenses_def evaluate_eq)
qed

theorem violations_are_rejected_entries_witness:
  "violationList (checkLicenses DEFAULT_ALLOWED_LICENSES mixedProject) =
     [\<lparr>package = ''gpl-pkg@1.0.0'', v_license = ''GPL-3.0'', v_version = ''1.0.0''\<rparr>] \<and>
   map (\<lambda>(key, info). \<lparr>package = key, v_license = license info, v_version = version info\<rparr>)
     (filter (\<lambda>(key, info). \<not> isLicenseAllowed (license info) DEFAULT_ALLOWED_LICENSES)
        [(''mit-pkg@1.0.0'', \<lparr>license = ''MIT'', version = ''1.0.0''\<rparr>),
         (''gpl-pkg@1.0.0'', \<lparr>license = ''GPL-3.0'', version = ''1.0.0''\<rparr>)]) =
     [\<lparr>package = ''gpl-pkg@1.0.0'', v_license = ''GPL-3.0'', v_version = ''1.0.0''\<rparr>]"
  using violations_are_rejected_entries [of DEFAULT_ALLOWED_LICENSES mixedProject]
  by (simp add: mixedProject_report)


subsection \<open>Workspace discovery\<close>

lemma scanEntries_append:
  "scanEntries dir (es1 @ es2) results = scanEntries dir es2 (scanEntries dir es1 results)"
  by (induction es1 arbitrary: results) auto

text \<open>
  Every path the discovery adds lies below the directory it started from, and no segment
  on the way down is an excluded name.
\<close>

lemma discovered_below:
  "p \<in> set (findAllPackageJsonDirs dir n results) \<Longrightarrow>
     p \<in> set results \<or> (\<exists>names. p = dir @ names \<and> set names \<inter> set excludedNames = {})"
  "p \<in> set (scanEntries dir entries results) \<Longrightarrow>
     p \<in> set results \<or> (\<exists>names. p = dir @ names \<and> set names \<inter> set excludedNames = {})"
proof (induction dir n results and dir entries results
    rule: findAllPackageJsonDirs_scanEntries.induct)
  case (1 dir entries results)
  then show ?case by simp
next
  case (2 dir results)
  then show ?case by simp
next
  case (3 dir e results)
  then show ?case by simp
next
  case (4 dir results)
  then show ?case by simp
next
  case (5 dir name n rest results)
  show ?case
  proof (cases "name \<in> set excludedNames")
    case True
    with 5 show ?thesis by simp
  next
    case notExcluded: False
    show ?thesis
    proof (cases "isDirectory n")
      case True
      with notExcluded "5.prems"
      have "p \<in> set (scanEntries dir rest (findAllPackageJsonDirs (join dir name) n results))"
        by simp
      with "5.IH"(3) notExcluded True
      consider "p \<in> set (findAllPackageJsonDirs (join dir name) n results)"
        | "\<exists>names. p = dir @ names \<and> set names \<inter> set excludedNames = {}"
        by blast
      then show ?thesis
      proof cases
        case 1
        with "5.IH"(2) notExcluded True
        consider "p \<in> set results"
          | names where "p = join dir name @ names" "set names \<inter> set excludedNames = {}"
          by blast
        then show ?thesis
        proof cases
          case 1
          then show ?thesis by simp
        next
          case 2
          with notExcluded have "p = dir @ (name # names) \<and>
              set (name # names) \<inter> set excludedNames = {}"
            by (simp add: join_def)
          then show ?thesis by blast
        qed
      next
        case 2
        then show ?thesis by simp
      qed
    next
      case notDir: False
      show ?thesis
      proof (cases "name = ''package.json''")
        case True
        with notExcluded notDir "5.prems"
        have "p \<in> set (scanEntries dir rest (results @ [dir]))" by simp
        with "5.IH"(4) notExcluded notDir True
        consider "p \<in> set (results @ [dir])"
          | "\<exists>names. p = dir @ names \<and> set names \<inter> set excludedNames = {}"
          by blast
        then show ?thesis
        proof cases
          case 1
          then have "p \<in> set results \<or> (p = dir @ [] \<and> set [] \<inter> set excludedNames = {})"
            by auto
          then show ?thesis by blast
        next
          case 2
          then show ?thesis by simp
        qed
      next
        case False
        with notExcluded notDir "5.prems" "5.IH"(5) show ?thesis by simp
      qed
    qed
  qed
qed

lemma discovery_prune:
  "findAllPackageJsonDirs dir n results = findAllPackageJsonDirs dir (prune n) results"
  "scanEntries dir entries results =
     scanEntries dir (map (\<lambda>(name, n). (name, prune n)) (filter readable entries)) results"
proof (induction dir n results and dir entries results
    rule: findAllPackageJsonDirs_scanEntries.induct)
  case (5 dir name n rest results)
  have dir_prune: "isDirectory (prune n) = isDirectory n" by (cases n) simp_all
  show ?case
  proof (cases n)
    case File
    with 5 show ?thesis by simp
  next
    case (Dir es)
    with 5 dir_prune show ?thesis by (cases "name \<in> set excludedNames") simp_all
  next
    case (Unreadable e)
    with 5 show ?thesis by (cases "name \<in> set excludedNames") simp_all
  qed
qed simp_all

lemma getWorkspaceDirs_subset:
  "set (getWorkspaceDirs fs) \<subseteq> set (findAllPackageJsonDirs (cwd fs) (tree fs) [])"
  by (auto simp: getWorkspaceDirs_def Let_def)

lemma mixedProject_workspaces:
  "getWorkspaceDirs mixedProject = [[''proj'', ''apps'', ''app1''], [''proj'', ''apps'', ''app2'']]"
  by code_simp

text \<open>
  Claim C5. A directory reached from the root through a segment named
  \<^verbatim>\<open>node_modules\<close>, \<^verbatim>\<open>.git\<close>, \<^verbatim>\<open>.turbo\<close>, \<^verbatim>\<open>.next\<close>, \<^verbatim>\<open>dist\<close>,
  \<^verbatim>\<open>coverage\<close> or \<^verbatim>\<open>build\<close> is never among the discovered workspaces, whatever
  the tree holds; and an entry with such a name is skipped as a whole: the result is the
  same as if the entry were not there.
\<close>

theorem excluded_never_discovered:
  "(cwd fs @ names \<in> set (getWorkspaceDirs fs) \<longrightarrow> set names \<inter> set excludedNames = {}) \<and>
   (dir @ names \<in> set (findAllPackageJsonDirs dir n []) \<longrightarrow>
      set names \<inter> set excludedNames = {}) \<and>
   (name \<in> set excludedNames \<longrightarrow>
      findAllPackageJsonDirs dir (Dir (es1 @ (name, sub) # es2)) results =
      findAllPackageJsonDirs dir (Dir (es1 @ es2)) results) \<and>
   excludedNames =
     [''node_modules'', ''.git'', ''.turbo'', ''.next'', ''dist'', ''coverage'', ''build'']"
proof -
  have find: "set ns \<inter> set excludedNames = {}"
    if "d @ ns \<in> set (findAllPackageJsonDirs d t [])" for d ns t
    using discovered_below(1) [OF that] by auto
  have ws: "cwd fs @ names \<in> set (getWorkspaceDirs fs) \<longrightarrow> set names \<inter> set excludedNames = {}"
    using getWorkspaceDirs_subset [of fs] find [of "cwd fs" names "tree fs"] by blast
  have skip: "name \<in> set excludedNames \<longrightarrow>
      findAllPackageJsonDirs dir (Dir (es1 @ (name, sub) # es2)) results =
      findAllPackageJsonDirs dir (Dir (es1 @ es2)) results"
    by (simp add: scanEntries_append)
  from ws find [of dir names n] skip show ?thesis by (simp add: excludedNames_def)
qed

theorem excluded_never_discovered_witness:
  "[''proj''] @ [''apps'', ''app1''] \<in> set (getWorkspaceDirs mixedProject) \<and>
   set [''apps'', ''app1''] \<inter> set excludedNames = {} \<and>
   [''proj''] @ [''apps'', ''app1'', ''node_modules'', ''mit-pkg'']
     \<notin> set (getWorkspaceDirs mixedProject) \<and>
   ''node_modules'' \<in> set excludedNames \<and>
   findAllPackageJsonDirs [''proj'']
     (Dir ([(''package.json'', File)] @
           (''node_modules'', Dir [(''pkg'', Dir [(''package.json'', File)])]) # []))
     [] = [[''proj'']]"
proof -
  have cwd: "cwd mixedProject = [''proj'']" by (simp add: mixedProject_def)
  have a: "[''proj''] @ [''apps'', ''app1''] \<in> set (getWorkspaceDirs mixedProject)"
    by (simp add: mixedProject_workspaces)
  have b: "set [''apps'', ''app1''] \<inter> set excludedNames = {}"
    using excluded_never_discovered [of mixedProject "[''apps'', ''app1'']"] a cwd by simp
  have nm: "''node_modules'' \<in> set excludedNames" by (simp add: excludedNames_def)
  then have "set [''apps'', ''app1'', ''node_modules'', ''mit-pkg''] \<inter> set excludedNames \<noteq> {}"
    by auto
  then have c: "[''proj''] @ [''apps'', ''app1'', ''node_modules'', ''mit-pkg'']
      \<notin> set (getWorkspaceDirs mixedProject)"
    using excluded_never_discovered
      [of mixedProject "[''apps'', ''app1'', ''node_modules'', ''mit-pkg'']"] cwd
    by auto
  have "findAllPackageJsonDirs [''proj'']
      (Dir ([(''package.json'', File)] @
            (''node_modules'', Dir [(''pkg'', Dir [(''package.json'', File)])]) # [])) [] =
    findAllPackageJsonDirs [''proj''] (Dir ([(''package.json'', File)] @ [])) []"
    using excluded_never_discovered [of _ _ _ _ "''node_modules''"] nm by blast
  then have d: "findAllPackageJsonDirs [''proj'']
      (Dir ([(''package.json'', File)] @
            (''node_modules'', Dir [(''pkg'', Dir [(''package.json'', File)])]) # [])) [] =
      [[''proj'']]"
    by (simp add: excludedNames_def)
  from a b c nm d show ?thesis by blast
qed

text \<open>
  Claim C8. The discovery is a total function: a directory whose listing raises, for
  whatever reason, leaves the results as they were, at the root and below it. Such a
  directory among the entries of another contributes nothing, and what its siblings
  contribute is still returned: the result is that of the tree without the unreadable
  directories.
\<close>

theorem discovery_absorbs_errors:
  "findAllPackageJsonDirs dir (Unreadable e) results = results \<and>
   findAllPackageJsonDirs dir File results = results \<and>
   findAllPackageJsonDirs dir (Dir (es1 @ (name, Unreadable e) # es2)) results =
     findAllPackageJsonDirs dir (Dir (es1 @ es2)) results \<and>
   findAllPackageJsonDirs dir n results = findAllPackageJsonDirs dir (prune n) results"
  using discovery_prune(1) [of dir n results] by (simp add: scanEntries_append)

theorem discovery_absorbs_errors_witness:
  "findAllPackageJsonDirs [''proj''] (Unreadable EACCES) [] = [] \<and>
   findAllPackageJsonDirs [''proj'']
     (Dir [(''locked'', Unreadable EACCES),
           (''apps'', Dir [(''app1'', Dir [(''gone'', Unreadable ENOENT),
                                          (''package.json'', File)])])])
     [] = [[''proj'', ''apps'', ''app1'']]"
proof -
  let ?t = "Dir [(''locked'', Unreadable EACCES),
           (''apps'', Dir [(''app1'', Dir [(''gone'', Unreadable ENOENT),
                                          (''package.json'', File)])])]"
  have "findAllPackageJsonDirs [''proj''] ?t [] = findAllPackageJsonDirs [''proj''] (prune ?t) []"
    using discovery_absorbs_errors [of "[''proj'']" EACCES "[]" "[]" "''x''" "[]" ?t] by blast
  moreover have "findAllPackageJsonDirs [''proj''] (prune ?t) [] = [[''proj'', ''apps'', ''app1'']]"
    by (simp add: excludedNames_def join_def)
  moreover have "findAllPackageJsonDirs [''proj''] (Unreadable EACCES) [] = []"
    using discovery_absorbs_errors [of "[''proj'']" EACCES "[]"] by blast
  ultimately show ?thesis by simp
qed


subsection \<open>License resolution\<close>



lemma resolveAll_origin:
  "(k, i) \<in> set (resolveAll fs dir names acc) \<Longrightarrow>
   (k, i) \<in> set acc \<or> (\<exists>name \<in> set names. resolveDependency fs dir name = Some (k, i))"
proof (induction names arbitrary: acc)
  case Nil
  then show ?case by simp
next
  case (Cons n names)
  show ?case
  proof (cases "resolveDependency fs dir n")
    case None
    with Cons.prems have "(k, i) \<in> set (resolveAll fs dir names acc)" by simp
    from Cons.IH [OF this] show ?thesis by auto
  next
    case (Some e)
    obtain k' i' where e: "e = (k', i')" by (cases e)
    with Some Cons.prems have "(k, i) \<in> set (resolveAll fs dir names (AList.update k' i' acc))"
      by simp
    from Cons.IH [OF this] consider "(k, i) \<in> set (AList.update k' i' acc)"
      | "\<exists>name \<in> set names. resolveDependency fs dir name = Some (k, i)" by blast
    then show ?thesis
    proof cases
      case 1
      with set_update_subset [of k' i' acc] have "(k, i) = (k', i') \<or> (k, i) \<in> set acc" by auto
      then show ?thesis
      proof
        assume "(k, i) = (k', i')"
        with Some e have "resolveDependency fs dir n = Some (k, i)" by simp
        then show ?thesis by simp
      next
        assume "(k, i) \<in> set acc"
        then show ?thesis by simp
      qed
    next
      case 2
      then show ?thesis by auto
    qed
  qed
qed

lemma resolveAll_cong:
  "\<forall>n \<in> set names. resolveDependency fs' dir n = resolveDependency fs dir n \<Longrightarrow>
   resolveAll fs' dir names acc = resolveAll fs dir names acc"
  by (induction names arbitrary: acc) (auto split: option.splits)



lemma unlicensedProject_resolved:
  "getLicensesFromPackageJson unlicensedProject [''proj'', ''apps'', ''app1''] =
     [(''test-pkg@1.0.0'', \<lparr>license = ''UNKNOWN'', version = ''1.0.0''\<rparr>)]"
  by code_simp

lemma unlicensedProject_report:
  "checkLicenses DEFAULT_ALLOWED_LICENSES unlicensedProject =
     \<lparr>summary = \<lparr>total_s = 1, allowed = 0, violations = 1\<rparr>,
      allowedLicenses = DEFAULT_ALLOWED_LICENSES,
      licenses = [(''test-pkg@1.0.0'', \<lparr>license = ''UNKNOWN'', version = ''1.0.0''\<rparr>)],
      violationList = [\<lparr>package = ''test-pkg@1.0.0'', v_license = ''UNKNOWN'',
                         v_version = ''1.0.0''\<rparr>]\<rparr>"
  by code_simp













text \<open>
  Claim C7. The resolution of a workspace reads its \<^verbatim>\<open>dependencies\<close> only. Every
  entry of the returned mapping is the entry emitted for a name listed under
  \<^verbatim>\<open>dependencies\<close>; and the mapping does not depend on \<^verbatim>\<open>devDependencies\<close>:
  replacing that field by anything else in the descriptor of the workspace leaves the
  mapping as it is. A package listed there only contributes nothing, installed or not.
\<close>

theorem only_dependencies_are_resolved:
  "((key, info) \<in> set (getLicensesFromPackageJson fs dir) \<longrightarrow>
      (\<exists>ws deps name. readPackageJson fs (join dir ''package.json'') = Some ws \<and>
         dependencies ws = Some deps \<and> name \<in> fst ` set deps \<and>
         resolveDependency fs dir name = Some (key, info))) \<and>
   (readPackageJson fs (join dir ''package.json'') = Some ws \<longrightarrow>
      getLicensesFromPackageJson
        (fs\<lparr>readPackageJson :=
              (readPackageJson fs)(join dir ''package.json'' \<mapsto> ws\<lparr>devDependencies := dev\<rparr>)\<rparr>)
        dir =
      getLicensesFromPackageJson fs dir)"
proof -
  have origin: "\<exists>ws deps name. readPackageJson fs (join dir ''package.json'') = Some ws \<and>
         dependencies ws = Some deps \<and> name \<in> fst ` set deps \<and>
         resolveDependency fs dir name = Some (key, info)"
    if entry: "(key, info) \<in> set (getLicensesFromPackageJson fs dir)"
  proof (cases "readPackageJson fs (join dir ''package.json'')")
    case None
    with entry show ?thesis by (simp add: getLicensesFromPackageJson_def)
  next
    case (Some ws)
    show ?thesis
    proof (cases "dependencies ws")
      case None
      with Some entry show ?thesis by (simp add: getLicensesFromPackageJson_def)
    next
      case deps: (Some deps)
      with Some entry have "(key, info) \<in> set (resolveAll fs dir (map fst deps) [])"
        by (simp add: getLicensesFromPackageJson_def)
      from resolveAll_origin [OF this]
      obtain name where "name \<in> set (map fst deps)"
        and "resolveDependency fs dir name = Some (key, info)" by auto
      with Some deps show ?thesis by auto
    qed
  qed
  have frame: "getLicensesFromPackageJson
        (fs\<lparr>readPackageJson :=
              (readPackageJson fs)(join dir ''package.json'' \<mapsto> ws\<lparr>devDependencies := dev\<rparr>)\<rparr>)
        dir =
      getLicensesFromPackageJson fs dir"
    if ws: "readPackageJson fs (join dir ''package.json'') = Some ws"
  proof -
    let ?fs' = "fs\<lparr>readPackageJson :=
              (readPackageJson fs)(join dir ''package.json'' \<mapsto> ws\<lparr>devDependencies := dev\<rparr>)\<rparr>"
    have "resolveDependency ?fs' dir n = resolveDependency fs dir n" for n
      by (simp add: resolveDependency_def join_def)
    then have "resolveAll ?fs' dir names [] = resolveAll fs dir names []" for names
      by (simp add: resolveAll_cong)
    with ws show ?thesis by (simp add: getLicensesFromPackageJson_def)
  qed
  from origin frame show ?thesis by blast
qed

theorem only_dependencies_are_resolved_witness:
  "(''test-pkg@1.0.0'', \<lparr>license = ''UNKNOWN'', version = ''1.0.0''\<rparr>)
     \<in> set (getLicensesFromPackageJson unlicensedProject [''proj'', ''apps'', ''app1'']) \<and>
   (\<exists>ws deps name.
      readPackageJson unlicensedProject (join [''proj'', ''apps'', ''app1''] ''package.json'') = Some ws \<and>
      dependencies ws = Some deps \<and> name \<in> fst ` set deps \<and>
      resolveDependency unlicensedProject [''proj'', ''apps'', ''app1''] name =
        Some (''test-pkg@1.0.0'', \<lparr>license = ''UNKNOWN'', version = ''1.0.0''\<rparr>)) \<and>
   resolveDependency unlicensedProject [''proj'', ''apps'', ''app1''] ''dev-tool'' =
     Some (''dev-tool@2.0.0'', \<lparr>license = ''GPL-3.0'', version = ''2.0.0''\<rparr>) \<and>
   ''dev-tool@2.0.0'' \<notin> fst ` set (getLicensesFromPackageJson unlicensedProject [''proj'', ''apps'', ''app1'']) \<and>
   getLicensesFromPackageJson
     (unlicensedProject\<lparr>readPackageJson :=
        (readPackageJson unlicensedProject)(join [''proj'', ''apps'', ''app1''] ''package.json'' \<mapsto>
          \<lparr>dependencies = Some [(''test-pkg'', ''^1.0.0'')], devDependencies = None,
           pj_license = None, pj_version = None\<rparr>)\<rparr>)
     [''proj'', ''apps'', ''app1''] =
   getLicensesFromPackageJson unlicensedProject [''proj'', ''apps'', ''app1'']"
proof -
  let ?dir = "[''proj'', ''apps'', ''app1'']"
  let ?ws = "\<lparr>dependencies = Some [(''test-pkg'', ''^1.0.0'')],
              devDependencies = Some [(''dev-tool'', ''^2.0.0'')],
              pj_license = None, pj_version = None\<rparr>"
  let ?e = "(''test-pkg@1.0.0'', \<lparr>license = ''UNKNOWN'', version = ''1.0.0''\<rparr>)"
  have h: "readPackageJson unlicensedProject (join ?dir ''package.json'') = Some ?ws"
    by (simp add: unlicensedProject_def join_def)
  have a: "?e \<in> set (getLicensesFromPackageJson unlicensedProject ?dir)"
    by (simp add: unlicensedProject_resolved)
  have b: "\<exists>ws deps name.
      readPackageJson unlicensedProject (join ?dir ''package.json'') = Some ws \<and>
      dependencies ws = Some deps \<and> name \<in> fst ` set deps \<and>
      resolveDependency unlicensedProject ?dir name = Some ?e"
    using only_dependencies_are_resolved
      [of "''test-pkg@1.0.0''" "\<lparr>license = ''UNKNOWN'', version = ''1.0.0''\<rparr>" unlicensedProject ?dir] a
    by blast
  have c: "resolveDependency unlicensedProject ?dir ''dev-tool'' =
     Some (''dev-tool@2.0.0'', \<lparr>license = ''GPL-3.0'', version = ''2.0.0''\<rparr>)"
    by (simp add: resolveDependency_def unlicensedProject_def join_def Let_def)
  have d: "''dev-tool@2.0.0'' \<notin> fst ` set (getLicensesFromPackageJson unlicensedProject ?dir)"
    by (simp add: unlicensedProject_resolved)
  have "getLicensesFromPackageJson
     (unlicensedProject\<lparr>readPackageJson :=
        (readPackageJson unlicensedProject)(join ?dir ''package.json'' \<mapsto> ?ws\<lparr>devDependencies := None\<rparr>)\<rparr>)
     ?dir = getLicensesFromPackageJson unlicensedProject ?dir"
    using only_dependencies_are_resolved [of _ _ unlicensedProject ?dir ?ws None] h by blast
  then have e: "getLicensesFromPackageJson
     (unlicensedProject\<lparr>readPackageJson :=
        (readPackageJson unlicensedProject)(join ?dir ''package.json'' \<mapsto>
          \<lparr>dependencies = Some [(''test-pkg'', ''^1.0.0'')], devDependencies = None,
           pj_license = None, pj_version = None\<rparr>)\<rparr>)
     ?dir = getLicensesFromPackageJson unlicensedProject ?dir"
    by simp
  from a b c d e show ?thesis by blast
qed


end
